theory Spec2Isabelle
  imports Complex_Main "HOL-Library.Word" "HOL-Library.Log_Nat"
begin

unbundle bit_operations_syntax

section \<open>Shared data: Python values and exceptions\<close>

text \<open>
  JSON values as Python sees them after \<^verbatim>\<open>json.loads\<close> / before \<^verbatim>\<open>json.dumps\<close>.
  \<open>JNull\<close> is Python's \<^verbatim>\<open>None\<close>; a JSON object is kept as an association list.
\<close>

datatype json =
    JNull
  | JBool bool
  | JNum real
  | JStr string
  | JArr "json list"
  | JObj "(string \<times> json) list"

type_synonym py_dict = "(string \<times> json) list"

text \<open>\<^verbatim>\<open>d.get(key)\<close>: the value, or \<^verbatim>\<open>None\<close> when the key is absent.\<close>

definition dict_get :: "py_dict \<Rightarrow> string \<Rightarrow> json" where
  "dict_get d key = (case map_of d key of None \<Rightarrow> JNull | Some v \<Rightarrow> v)"

text \<open>A raised Python exception: its class and its message.\<close>

datatype exc_class = Exception | TimeoutError | IndexError | ValueError | StatisticsError

record py_exception =
  exc_cls :: exc_class
  exc_msg :: string

type_synonym byte = "8 word"


section \<open>The live streaming client (\<^verbatim>\<open>python/ts_live/client.py\<close>)\<close>

subsection \<open>Data model\<close>

record server_config =
  host :: string
  port :: int
  api_key :: string
  multilingual :: bool
  language :: "string option"
  translate :: bool

record transcription_segment =
  seg_text :: string
  seg_start :: real
  seg_end :: real

record server_message =
  msg_session_id :: "string option"
  msg_status :: "string option"
  msg_message :: "string option"
  msg_segments :: "transcription_segment list option"
  msg_language :: "string option"
  msg_language_confidence :: "real option"

text \<open>
  A frame handed to \<^verbatim>\<open>ws.send\<close>: a text frame carrying the dictionary given to
  \<^verbatim>\<open>json.dumps\<close>, or a binary frame carrying the float32 samples whose bytes are sent
  (opcode \<^verbatim>\<open>OPCODE_BINARY\<close>).
\<close>

datatype frame = TextFrame py_dict | BinaryFrame "real list"

text \<open>
  The fields of \<^verbatim>\<open>Client\<close> that the handlers read or write. \<open>sent\<close> and \<open>console\<close>
  are the effects made explicit: the frames passed to \<^verbatim>\<open>send\<close> so far, oldest first,
  and the text last written to the cleared terminal (before \<^verbatim>\<open>textwrap.wrap\<close>).
\<close>

record client =
  config :: server_config
  session_id :: string
  is_recording :: bool
  is_waiting :: bool
  last_server_response_time :: "real option"
  recorded_frames :: "byte list"
  sent :: "frame list"
  console :: string

text \<open>\<^verbatim>\<open>Client.__init__\<close>: the state before any callback has run.\<close>

definition init_client :: "server_config \<Rightarrow> string \<Rightarrow> client" where
  "init_client cfg uuid4 =
     \<lparr>config = cfg, session_id = uuid4, is_recording = False, is_waiting = False,
      last_server_response_time = None, recorded_frames = [], sent = [], console = []\<rparr>"

subsection \<open>\<^verbatim>\<open>_handle_transcription\<close>\<close>

text \<open>
  The body of the \<^verbatim>\<open>for segment in segments\<close> loop:
  \<^verbatim>\<open>if not transcript or transcript[-1] != segment.text: transcript.append(segment.text)\<close>.
\<close>

definition append_segment :: "string list \<Rightarrow> transcription_segment \<Rightarrow> string list" where
  "append_segment transcript segment =
     (if transcript = [] \<or> last transcript \<noteq> seg_text segment
      then transcript @ [seg_text segment] else transcript)"

text \<open>
  The local \<^verbatim>\<open>transcript\<close> when it is joined: a fresh list, the loop, then
  \<^verbatim>\<open>if len(transcript) > 3: transcript = transcript[-3:]\<close>.
\<close>

definition transcript_buffer :: "transcription_segment list \<Rightarrow> string list" where
  "transcript_buffer segments =
     (let transcript = foldl append_segment [] segments
      in if length transcript > 3 then drop (length transcript - 3) transcript
         else transcript)"

definition handle_transcription :: "client \<Rightarrow> transcription_segment list \<Rightarrow> client" where
  "handle_transcription c segments = c\<lparr>console := concat (transcript_buffer segments)\<rparr>"

subsection \<open>\<^verbatim>\<open>on_open\<close>, \<^verbatim>\<open>on_message\<close>\<close>

definition auth_message :: "client \<Rightarrow> py_dict" where
  "auth_message c =
     [(''uid'', JStr (session_id c)),
      (''multilingual'', JBool (multilingual (config c))),
      (''language'', (case language (config c) of None \<Rightarrow> JNull | Some l \<Rightarrow> JStr l)),
      (''task'', JStr (if translate (config c) then ''translate'' else ''transcribe'')),
      (''auth'', JStr (api_key (config c)))]"

definition on_open :: "client \<Rightarrow> client" where
  "on_open c = c\<lparr>sent := sent c @ [TextFrame (auth_message c)]\<rparr>"

text \<open>
  \<^verbatim>\<open>on_message\<close>. The first argument is the clock reading; the message is \<open>None\<close> when
  \<^verbatim>\<open>ServerMessage.parse_raw\<close> raises, which the handler prints and absorbs. A string is
  truthy when it is not empty, a list likewise.
\<close>

definition on_message :: "real \<Rightarrow> server_message option \<Rightarrow> client \<Rightarrow> client" where
  "on_message now parsed c0 =
     (let c = c0\<lparr>last_server_response_time := Some now\<rparr>
      in case parsed of
           None \<Rightarrow> c
         | Some m \<Rightarrow>
             (let c1 = (case msg_session_id m of
                          Some sid \<Rightarrow> if sid \<noteq> [] \<and> sid \<noteq> session_id c
                                      then c\<lparr>session_id := sid\<rparr> else c
                        | None \<Rightarrow> c);
                  c2 = (if msg_status m = Some ''WAIT'' then c1\<lparr>is_waiting := True\<rparr> else c1);
                  c3 = (if msg_message m = Some ''DISCONNECT''
                        then c2\<lparr>is_recording := False\<rparr> else c2);
                  c4 = (if msg_message m = Some ''SERVER_READY''
                        then c3\<lparr>is_recording := True\<rparr> else c3)
              in case msg_segments m of
                   Some (s # ss) \<Rightarrow> handle_transcription c4 (s # ss)
                 | _ \<Rightarrow> c4))"

subsection \<open>\<^verbatim>\<open>convert_bytes_to_float\<close>, \<^verbatim>\<open>stream_audio_packet\<close>, \<^verbatim>\<open>record\<close>\<close>

text \<open>
  \<^verbatim>\<open>np.frombuffer(audio_bytes, dtype=np.int16)\<close> reads little-endian signed 16-bit
  samples and raises \<^verbatim>\<open>ValueError\<close> when a byte is left over; dividing by \<open>32768\<close> is
  exact in float32.
\<close>

definition int16_le :: "byte \<Rightarrow> byte \<Rightarrow> int" where
  "int16_le lo hi =
     (let u = uint lo + 256 * uint hi in if u < 32768 then u else u - 65536)"

fun int16_samples :: "byte list \<Rightarrow> (int list) option" where
  "int16_samples [] = Some []"
| "int16_samples [b] = None"
| "int16_samples (lo # hi # rest) =
     (case int16_samples rest of
        None \<Rightarrow> None
      | Some xs \<Rightarrow> Some (int16_le lo hi # xs))"

definition convert_bytes_to_float :: "byte list \<Rightarrow> py_exception + real list" where
  "convert_bytes_to_float audio_bytes =
     (case int16_samples audio_bytes of
        None \<Rightarrow> Inl \<lparr>exc_cls = ValueError,
                     exc_msg = ''buffer size must be a multiple of element size''\<rparr>
      | Some raw_audio_data \<Rightarrow> Inr (map (\<lambda>x. real_of_int x / 32768) raw_audio_data))"

text \<open>\<^verbatim>\<open>stream_audio_packet\<close>: one binary frame; a failing send is printed and absorbed.\<close>

definition stream_audio_packet :: "real list \<Rightarrow> client \<Rightarrow> client" where
  "stream_audio_packet audio_packet c = c\<lparr>sent := sent c @ [BinaryFrame audio_packet]\<rparr>"

text \<open>
  The thread that runs \<^verbatim>\<open>record\<close>: whether it stands between the test of
  \<^verbatim>\<open>while self.is_recording\<close> and the end of the loop body, its local \<^verbatim>\<open>n_audio_file\<close>,
  and the chunk files it has had written.
\<close>

record recorder =
  in_body :: bool
  n_audio_file :: nat
  chunk_files :: "(nat \<times> byte list) list"

record session =
  cl :: client
  rc :: recorder

definition rate :: nat where
  "rate = 16000"

text \<open>
  The body of the loop in \<^verbatim>\<open>record\<close>, for the bytes read from the microphone. An
  exception of \<^verbatim>\<open>convert_bytes_to_float\<close> leaves the loop before anything is sent.
\<close>

definition record_body :: "byte list \<Rightarrow> session \<Rightarrow> session" where
  "record_body data s =
     (let c1 = (cl s)\<lparr>recorded_frames := recorded_frames (cl s) @ data\<rparr>
      in case convert_bytes_to_float data of
           Inl e \<Rightarrow> s\<lparr>cl := c1\<rparr>
         | Inr audio_array \<Rightarrow>
             (let c2 = stream_audio_packet audio_array c1
              in if length (recorded_frames c2) > 60 * rate
                 then \<lparr>cl = c2\<lparr>recorded_frames := []\<rparr>,
                       rc = (rc s)\<lparr>n_audio_file := n_audio_file (rc s) + 1,
                                   chunk_files := chunk_files (rc s)
                                     @ [(n_audio_file (rc s), recorded_frames c2)]\<rparr>\<rparr>
                 else s\<lparr>cl := c2\<rparr>))"

subsection \<open>The two threads of a connection\<close>

text \<open>
  The websocket thread runs the callbacks one after the other; the caller's thread runs
  \<^verbatim>\<open>record\<close>. A run of the client is an interleaving of their steps: the callbacks
  \<^verbatim>\<open>on_open\<close> and \<^verbatim>\<open>on_message\<close>, the test of the loop condition of \<^verbatim>\<open>record\<close>, and
  the loop body with the bytes the microphone delivered.
\<close>

datatype event =
    WsOpen
  | WsMessage real "server_message option"
  | LoopTest
  | LoopBody "byte list"

fun step :: "session \<Rightarrow> event \<Rightarrow> session" where
  "step s WsOpen = s\<lparr>cl := on_open (cl s)\<rparr>"
| "step s (WsMessage now parsed) = s\<lparr>cl := on_message now parsed (cl s)\<rparr>"
| "step s LoopTest = s\<lparr>rc := (rc s)\<lparr>in_body := is_recording (cl s)\<rparr>\<rparr>"
| "step s (LoopBody data) =
     (if in_body (rc s)
      then (let s' = record_body data s in s'\<lparr>rc := (rc s')\<lparr>in_body := False\<rparr>\<rparr>)
      else s)"

definition run :: "event list \<Rightarrow> session \<Rightarrow> session" where
  "run evs s = foldl step s evs"

definition init_session :: "server_config \<Rightarrow> string \<Rightarrow> session" where
  "init_session cfg uuid4 =
     \<lparr>cl = init_client cfg uuid4,
      rc = \<lparr>in_body = False, n_audio_file = 0, chunk_files = []\<rparr>\<rparr>"

text \<open>
  The websocket library calls \<^verbatim>\<open>on_open\<close> when the connection is established and
  delivers messages afterwards: in a run, no \<open>WsMessage\<close> comes before the first \<open>WsOpen\<close>.
  The first argument tells whether the connection is open already.
\<close>

fun callbacks_in_order :: "bool \<Rightarrow> event list \<Rightarrow> bool" where
  "callbacks_in_order opened [] = True"
| "callbacks_in_order opened (WsOpen # evs) = callbacks_in_order True evs"
| "callbacks_in_order opened (WsMessage now parsed # evs) =
     (opened \<and> callbacks_in_order opened evs)"
| "callbacks_in_order opened (LoopTest # evs) = callbacks_in_order opened evs"
| "callbacks_in_order opened (LoopBody data # evs) = callbacks_in_order opened evs"

fun is_handshake :: "frame \<Rightarrow> bool" where
  "is_handshake (TextFrame d) = True"
| "is_handshake (BinaryFrame a) = False"

text \<open>The frames sent start with the handshake \<open>h\<close>, if any frame was sent.\<close>

definition handshake_first :: "py_dict \<Rightarrow> frame list \<Rightarrow> bool" where
  "handshake_first h frames = (case frames of [] \<Rightarrow> True | f # fs \<Rightarrow> f = TextFrame h)"

text \<open>
  What holds between the steps of a run that started with the handshake \<open>h\<close> still to be
  sent: nothing is sent before the connection opens, and the recorder is let into its
  loop only after that.
\<close>

definition session_inv :: "py_dict \<Rightarrow> bool \<Rightarrow> session \<Rightarrow> bool" where
  "session_inv h opened s =
     ((case sent (cl s) of
         [] \<Rightarrow> \<not> opened \<and> auth_message (cl s) = h
       | f # fs \<Rightarrow> opened \<and> f = TextFrame h)
      \<and> (is_recording (cl s) \<longrightarrow> opened)
      \<and> (in_body (rc s) \<longrightarrow> opened))"


section \<open>The batch polling client (\<^verbatim>\<open>talkscriber/stt/batch_client.py\<close>)\<close>

subsection \<open>Formatting integers (\<^verbatim>\<open>str(int)\<close> inside an f-string)\<close>

definition digit_char :: "nat \<Rightarrow> char" where
  "digit_char d = ''0123456789'' ! d"

function str_nat :: "nat \<Rightarrow> string" where
  "str_nat n = (if n < 10 then [digit_char n] else str_nat (n div 10) @ [digit_char (n mod 10)])"
  by pat_completeness auto
termination
  by (relation "measure (\<lambda>n. n)") auto

declare str_nat.simps [simp del]

definition str_int :: "int \<Rightarrow> string" where
  "str_int i = (if i < 0 then CHR ''-'' # str_nat (nat (- i)) else str_nat (nat i))"

subsection \<open>What the loop observes and what it does\<close>

text \<open>
  One pass through the body of \<^verbatim>\<open>while True\<close> meets the outside world at most four times:
  the clock read for the timeout check, the call of \<^verbatim>\<open>get_batch_job_status\<close> (which
  returns a dictionary or raises), the clock read after the fetch (for the completion
  message, or for the status bookkeeping) and the clock read that restarts the
  sixty-second reminder. A run of the loop is driven by the list of these observations;
  when the list is used up the loop is still polling.
\<close>

record poll_round =
  t_check :: real
  fetched :: "py_exception + py_dict"
  t_after :: real
  t_reset :: real

text \<open>The lines written by \<^verbatim>\<open>print\<close>, one constructor per f-string, and the sleeps.\<close>

datatype log_line =
    InfoWaiting                 \<comment> \<open>\<^verbatim>\<open>[INFO]: Waiting for job completion...\<close>\<close>
  | InfoJobId string            \<comment> \<open>\<^verbatim>\<open>[INFO]: Job ID: {job_id}\<close>\<close>
  | ErrorFetch string           \<comment> \<open>\<^verbatim>\<open>[ERROR]: Failed to get job status: {e}\<close>\<close>
  | InfoCompleted real          \<comment> \<open>\<^verbatim>\<open>[INFO]: Job completed successfully in {elapsed:.2f} seconds\<close>\<close>
  | InfoStatus json             \<comment> \<open>\<^verbatim>\<open>[INFO]: Job status: {current_status}\<close>\<close>
  | InfoStillProcessing json    \<comment> \<open>\<^verbatim>\<open>[INFO]: Still processing... (status: {current_status})\<close>\<close>

datatype effect = Print log_line | Sleep int

datatype outcome = Returned py_dict | Raised py_exception | Polling

record poll_state =
  last_status :: json
  status_start_time :: real

definition failure_statuses :: "json list" where
  "failure_statuses = [JStr ''FAILED_TS_TRANSCRIBE'', JStr ''FAILED'', JStr ''FAILED_TRANSCRIBE'']"

definition status_text :: "json \<Rightarrow> string" where
  "status_text v = (case v of JStr s \<Rightarrow> s | _ \<Rightarrow> [])"

text \<open>The bookkeeping under \<^verbatim>\<open># Print status changes\<close>.\<close>

definition report_status :: "poll_state \<Rightarrow> json \<Rightarrow> poll_round \<Rightarrow> poll_state \<times> effect list" where
  "report_status st current_status r =
     (if current_status \<noteq> last_status st
      then (\<lparr>last_status = current_status, status_start_time = t_after r\<rparr>,
            [Print (InfoStatus current_status)])
      else if t_after r - status_start_time st \<ge> 60
      then (st\<lparr>status_start_time := t_reset r\<rparr>, [Print (InfoStillProcessing current_status)])
      else (st, []))"

definition emit :: "effect list \<Rightarrow> outcome \<times> effect list \<Rightarrow> outcome \<times> effect list" where
  "emit es res = (fst res, es @ snd res)"

text \<open>The \<^verbatim>\<open>while True\<close> loop of \<^verbatim>\<open>wait_for_job_completion\<close>.\<close>

fun wait_loop ::
  "int \<Rightarrow> int \<Rightarrow> real \<Rightarrow> poll_state \<Rightarrow> poll_round list \<Rightarrow> outcome \<times> effect list" where
  "wait_loop poll_interval timeout start_time st [] = (Polling, [])"
| "wait_loop poll_interval timeout start_time st (r # rs) =
     (if t_check r - start_time > real_of_int timeout
      then (Raised \<lparr>exc_cls = Exception,
                    exc_msg = ''Job timed out after '' @ str_int timeout @ '' seconds''\<rparr>, [])
      else case fetched r of
        Inl e \<Rightarrow>
          emit [Print (ErrorFetch (exc_msg e)), Sleep poll_interval]
            (wait_loop poll_interval timeout start_time st rs)
      | Inr job_status \<Rightarrow>
          (let current_status = dict_get job_status ''status'' in
           if current_status = JStr ''DONE''
           then (Returned job_status, [Print (InfoCompleted (t_after r - start_time))])
           else if current_status \<in> set failure_statuses
           then (Raised \<lparr>exc_cls = Exception,
                         exc_msg = ''Job failed with status: '' @ status_text current_status\<rparr>, [])
           else (case report_status st current_status r of
                   (st', prints) \<Rightarrow>
                     emit (prints @ [Sleep poll_interval])
                       (wait_loop poll_interval timeout start_time st' rs))))"

text \<open>
  \<^verbatim>\<open>wait_for_job_completion(job_id, poll_interval, timeout)\<close>; \<open>start_time\<close> and \<open>t_status\<close>
  are the two clock reads before the loop.
\<close>

definition wait_for_job_completion ::
  "string \<Rightarrow> int \<Rightarrow> int \<Rightarrow> real \<Rightarrow> real \<Rightarrow> poll_round list \<Rightarrow> outcome \<times> effect list" where
  "wait_for_job_completion job_id poll_interval timeout start_time t_status rounds =
     emit [Print InfoWaiting, Print (InfoJobId job_id)]
       (wait_loop poll_interval timeout start_time
          \<lparr>last_status = JNull, status_start_time = t_status\<rparr> rounds)"

text \<open>
  A round after which the loop goes on: the timeout check passes, and the fetch either
  raises or yields a status that is neither the success tag nor a failure tag.
\<close>

definition keeps_polling :: "int \<Rightarrow> real \<Rightarrow> poll_round \<Rightarrow> bool" where
  "keeps_polling timeout start_time r =
     (t_check r - start_time \<le> real_of_int timeout \<and>
      (case fetched r of
         Inl e \<Rightarrow> True
       | Inr job_status \<Rightarrow>
           dict_get job_status ''status'' \<noteq> JStr ''DONE'' \<and>
           dict_get job_status ''status'' \<notin> set failure_statuses))"


section \<open>The latency sampler (\<^verbatim>\<open>benchmark_ttft.py\<close>)\<close>

subsection \<open>Floating-point arithmetic\<close>

text \<open>
  A Python \<^verbatim>\<open>float\<close> is an IEEE-754 double, and each arithmetic operation returns the
  exact result rounded to a double. The finite doubles are real numbers, so samples and
  percentiles are reals here, and the functions below take the rounding \<open>rnd\<close> applied
  after each operation as their first argument: \<open>\<lambda>x. x\<close> is arithmetic without rounding,
  \<open>fl\<close> is the rounding of doubles. Infinities and NaN are not modelled.

  \<open>fl x\<close> rounds to the nearest number with a significand of 53 bits, ties to the even
  significand (over- and underflow of the exponent aside): for \<open>2 ^ e \<le> \<bar>x\<bar> < 2 ^ (e + 1)\<close>
  the doubles around \<open>x\<close> are the multiples of \<open>2 ^ (e - 52)\<close>.
\<close>

fun bits :: "nat \<Rightarrow> nat" where
  "bits n = (if n = 0 then 0 else Suc (bits (n div 2)))"

declare bits.simps [simp del]

definition binade :: "real \<Rightarrow> int" where
  "binade x =
     (let a = \<bar>x\<bar>
      in if a \<ge> 1 then int (bits (nat \<lfloor>a\<rfloor>)) - 1
         else - int (bits (nat (\<lceil>1 / a\<rceil> - 1))))"

definition round_half_even :: "real \<Rightarrow> int" where
  "round_half_even x =
     (let f = \<lfloor>x\<rfloor>; d = x - of_int f
      in if d < 1 / 2 then f
         else if d > 1 / 2 then f + 1
         else if even f then f else f + 1)"

definition fl :: "real \<Rightarrow> real" where
  "fl x =
     (if x = 0 then 0
      else let s = 2 powi (52 - binade x)
           in of_int (round_half_even (x * s)) / s)"

subsection \<open>Python built-ins used by the sampler\<close>

text \<open>\<^verbatim>\<open>int(x)\<close> of a float: truncation towards zero.\<close>

definition py_int :: "real \<Rightarrow> int" where
  "py_int x = (if x \<ge> 0 then \<lfloor>x\<rfloor> else \<lceil>x\<rceil>)"

text \<open>\<^verbatim>\<open>xs[i]\<close>: a negative index counts from the end; out of range raises.\<close>

definition py_index :: "'a list \<Rightarrow> int \<Rightarrow> py_exception + 'a" where
  "py_index xs i =
     (if - int (length xs) \<le> i \<and> i < int (length xs)
      then Inr (xs ! nat (if i < 0 then i + int (length xs) else i))
      else Inl \<lparr>exc_cls = IndexError, exc_msg = ''list index out of range''\<rparr>)"

definition py_min :: "real list \<Rightarrow> py_exception + real" where
  "py_min xs =
     (if xs = [] then Inl \<lparr>exc_cls = ValueError, exc_msg = ''min() arg is an empty sequence''\<rparr>
      else Inr (Min (set xs)))"

definition py_max :: "real list \<Rightarrow> py_exception + real" where
  "py_max xs =
     (if xs = [] then Inl \<lparr>exc_cls = ValueError, exc_msg = ''max() arg is an empty sequence''\<rparr>
      else Inr (Max (set xs)))"

text \<open>
  \<^verbatim>\<open>statistics.mean\<close>, \<^verbatim>\<open>statistics.median\<close> and \<^verbatim>\<open>statistics.stdev\<close>: each raises
  \<^verbatim>\<open>StatisticsError\<close> on too few data points. The mean and the variance are computed
  exactly and rounded once; \<open>fsqrt\<close> is the square root of floats.
\<close>

definition statistics_mean :: "(real \<Rightarrow> real) \<Rightarrow> real list \<Rightarrow> py_exception + real" where
  "statistics_mean rnd xs =
     (if xs = []
      then Inl \<lparr>exc_cls = StatisticsError, exc_msg = ''mean requires at least one data point''\<rparr>
      else Inr (rnd (sum_list xs / real (length xs))))"

definition statistics_median :: "(real \<Rightarrow> real) \<Rightarrow> real list \<Rightarrow> py_exception + real" where
  "statistics_median rnd xs =
     (let s = sort xs; n = length s
      in if n = 0
         then Inl \<lparr>exc_cls = StatisticsError, exc_msg = ''no median for empty data''\<rparr>
         else if n mod 2 = 1 then Inr (s ! (n div 2))
         else Inr (rnd (rnd (s ! (n div 2 - 1) + s ! (n div 2)) / 2)))"

definition statistics_stdev ::
  "(real \<Rightarrow> real) \<Rightarrow> (real \<Rightarrow> real) \<Rightarrow> real list \<Rightarrow> py_exception + real" where
  "statistics_stdev rnd fsqrt xs =
     (let n = length xs
      in if n < 2
         then Inl \<lparr>exc_cls = StatisticsError,
                   exc_msg = ''stdev requires at least two data points''\<rparr>
         else let m = sum_list xs / real n;
                  ss = sum_list (map (\<lambda>x. (x - m)\<^sup>2) xs)
              in Inr (fsqrt (ss / real (n - 1))))"

subsection \<open>\<^verbatim>\<open>calculate_percentile\<close>\<close>

text \<open>The local \<^verbatim>\<open>index = (len(sorted_data) - 1) * percentile / 100.0\<close>.\<close>

text \<open>A rounding that leaves the numbers of a set as they are: they are floats.\<close>

definition exact_on :: "(real \<Rightarrow> real) \<Rightarrow> real set \<Rightarrow> bool" where
  "exact_on rnd S = (\<forall>x\<in>S. rnd x = x)"

definition percentile_index :: "(real \<Rightarrow> real) \<Rightarrow> real list \<Rightarrow> real \<Rightarrow> real" where
  "percentile_index rnd sorted_data percentile =
     rnd (rnd (real (length sorted_data - 1) * percentile) / 100)"

definition calculate_percentile ::
  "(real \<Rightarrow> real) \<Rightarrow> real list \<Rightarrow> real \<Rightarrow> py_exception + real" where
  "calculate_percentile rnd data percentile =
     (if data = [] then Inr 0
      else
        let sorted_data = sort data;
            index = percentile_index rnd sorted_data percentile;
            lower = py_int index;
            upper = lower + 1;
            weight = rnd (index - of_int lower)
        in if upper \<ge> int (length sorted_data) then py_index sorted_data lower
           else case py_index sorted_data lower of
                  Inl e \<Rightarrow> Inl e
                | Inr a \<Rightarrow>
                    (case py_index sorted_data upper of
                       Inl e \<Rightarrow> Inl e
                     | Inr b \<Rightarrow> Inr (rnd (rnd (a * rnd (1 - weight)) + rnd (b * weight)))))"

subsection \<open>The statistics block of \<^verbatim>\<open>run_benchmark\<close>\<close>

record benchmark_statistics =
  p50 :: real
  p95 :: real
  p99 :: real
  mean :: real
  median :: real
  std_dev :: real
  min_ttft :: real
  max_ttft :: real

text \<open>
  \<^verbatim>\<open>run_benchmark\<close> from \<^verbatim>\<open>if not ttft_measurements\<close> on, given the samples the trial
  loop collected: the value returned, and the statistics printed and saved (none when the
  function prints \<^verbatim>\<open>ERROR: No successful measurements collected!\<close> and returns
  \<^verbatim>\<open>False\<close>).
\<close>

definition run_benchmark_statistics ::
  "(real \<Rightarrow> real) \<Rightarrow> (real \<Rightarrow> real) \<Rightarrow> real list
     \<Rightarrow> py_exception + (bool \<times> benchmark_statistics option)" where
  "run_benchmark_statistics rnd fsqrt ttft_measurements =
     (if ttft_measurements = [] then Inr (False, None)
      else
        case calculate_percentile rnd ttft_measurements 50 of Inl e \<Rightarrow> Inl e | Inr v50 \<Rightarrow>
        case calculate_percentile rnd ttft_measurements 95 of Inl e \<Rightarrow> Inl e | Inr v95 \<Rightarrow>
        case calculate_percentile rnd ttft_measurements 99 of Inl e \<Rightarrow> Inl e | Inr v99 \<Rightarrow>
        case statistics_mean rnd ttft_measurements of Inl e \<Rightarrow> Inl e | Inr vmean \<Rightarrow>
        case statistics_median rnd ttft_measurements of Inl e \<Rightarrow> Inl e | Inr vmedian \<Rightarrow>
        case (if length ttft_measurements > 1 then statistics_stdev rnd fsqrt ttft_measurements
              else Inr 0) of Inl e \<Rightarrow> Inl e | Inr vstd \<Rightarrow>
        case py_min ttft_measurements of Inl e \<Rightarrow> Inl e | Inr vmin \<Rightarrow>
        case py_max ttft_measurements of Inl e \<Rightarrow> Inl e | Inr vmax \<Rightarrow>
          Inr (True, Some \<lparr>p50 = v50, p95 = v95, p99 = v99, mean = vmean, median = vmedian,
                           std_dev = vstd, min_ttft = vmin, max_ttft = vmax\<rparr>))"


section \<open>Properties of the live streaming client\<close>

lemma foldl_append_segment_snoc:
  "foldl append_segment acc (segs @ [s]) = append_segment (foldl append_segment acc segs) s"
  by simp

lemma collapse_is_remdups_adj:
  "foldl append_segment [] segs = remdups_adj (map seg_text segs)"
proof (induction segs rule: rev_induct)
  case Nil
  show ?case by simp
next
  case (snoc s segs)
  show ?case
  proof (cases segs rule: rev_cases)
    case Nil
    then show ?thesis by (simp add: append_segment_def)
  next
    case (snoc segs' s')
    have nonempty: "remdups_adj (map seg_text segs) \<noteq> []"
      using snoc by simp
    have lst: "last (remdups_adj (map seg_text segs)) = seg_text s'"
      using snoc by simp
    have "remdups_adj (map seg_text (segs @ [s]))
            = remdups_adj (map seg_text segs' @ [seg_text s', seg_text s])"
      using snoc by simp
    also have "\<dots> = remdups_adj (map seg_text segs' @ [seg_text s'])
                     @ (if seg_text s' = seg_text s then [] else [seg_text s])"
      by (rule remdups_adj_append_two)
    also have "\<dots> = append_segment (remdups_adj (map seg_text segs)) s"
      using nonempty lst snoc by (auto simp: append_segment_def)
    finally show ?thesis
      using snoc.IH by simp
  qed
qed

lemma transcript_buffer_eq:
  "transcript_buffer segs =
     (let d = remdups_adj (map seg_text segs) in drop (length d - 3) d)"
  by (simp add: transcript_buffer_def collapse_is_remdups_adj Let_def)

text \<open>
  C6. Consecutive identical segments are collapsed by comparing each text with the last
  entry appended only: the arrivals a, a, b leave the buffer a, b; and since nothing but the
  last entry is looked at, a text that returns after another one (a, b, a) is kept.
\<close>

theorem consecutive_duplicates_collapsed:
  "transcript_buffer
     [\<lparr>seg_text = ''a'', seg_start = s1, seg_end = e1\<rparr>,
      \<lparr>seg_text = ''a'', seg_start = s2, seg_end = e2\<rparr>,
      \<lparr>seg_text = ''b'', seg_start = s3, seg_end = e3\<rparr>] = [''a'', ''b'']
   \<and> transcript_buffer
     [\<lparr>seg_text = ''a'', seg_start = s1, seg_end = e1\<rparr>,
      \<lparr>seg_text = ''b'', seg_start = s2, seg_end = e2\<rparr>,
      \<lparr>seg_text = ''a'', seg_start = s3, seg_end = e3\<rparr>] = [''a'', ''b'', ''a'']
   \<and> append_segment (t @ [x]) seg = (if x = seg_text seg then t @ [x] else t @ [x, seg_text seg])"
  by (simp add: transcript_buffer_def append_segment_def)

text \<open>
  C7. The task field of the handshake that \<^verbatim>\<open>on_open\<close> sends is \<^verbatim>\<open>"translate"\<close> when the
  translate option is set and \<^verbatim>\<open>"transcribe"\<close> when it is not.
\<close>

theorem handshake_task_field:
  "sent (on_open c) = sent c @ [TextFrame (auth_message c)]
   \<and> map_of (auth_message c) ''task''
       = Some (JStr (if translate (config c) then ''translate'' else ''transcribe''))"
  by (simp add: on_open_def auth_message_def)

text \<open>
  C10. Whatever the client state (and so whatever batches came before), handling one batch
  of segments leaves on display exactly the last three entries of that batch's texts with
  adjacent repeats removed: at most three entries, the older ones dropped, and nothing of
  the client but the display changes.
\<close>

theorem buffer_rebuilt_from_batch:
  "console (handle_transcription c segs) = concat (transcript_buffer segs)
   \<and> handle_transcription c segs = c\<lparr>console := concat (transcript_buffer segs)\<rparr>
   \<and> console (handle_transcription (handle_transcription c earlier) segs)
       = console (handle_transcription c segs)
   \<and> transcript_buffer segs
       = drop (length (remdups_adj (map seg_text segs)) - 3) (remdups_adj (map seg_text segs))
   \<and> length (transcript_buffer segs) \<le> 3"
  by (simp add: handle_transcription_def transcript_buffer_eq Let_def)

subsection \<open>Handshake before audio\<close>

lemma sent_on_message: "sent (on_message now parsed c) = sent c"
  by (simp add: on_message_def handle_transcription_def Let_def
      split: option.splits list.splits)

lemma sent_record_body:
  "sent (cl (record_body data s)) = sent (cl s)
   \<or> (\<exists>a. sent (cl (record_body data s)) = sent (cl s) @ [BinaryFrame a])"
  by (auto simp: record_body_def stream_audio_packet_def Let_def split: sum.splits)

lemma step_keeps_session_inv:
  assumes "session_inv h opened s" and "callbacks_in_order opened (ev # evs)"
  shows "session_inv h (opened \<or> ev = WsOpen) (step s ev)"
proof (cases ev)
  case WsOpen
  then show ?thesis
    using assms(1) by (cases "sent (cl s)") (auto simp: session_inv_def on_open_def)
next
  case (WsMessage now parsed)
  then have op: "opened"
    using assms(2) by simp
  then show ?thesis
    using assms(1) WsMessage
    by (cases "sent (cl s)") (auto simp: session_inv_def sent_on_message)
next
  case LoopTest
  then show ?thesis
    using assms(1) by (cases "sent (cl s)") (auto simp: session_inv_def)
next
  case (LoopBody data)
  show ?thesis
  proof (cases "in_body (rc s)")
    case False
    then show ?thesis using assms(1) LoopBody by simp
  next
    case True
    then have op: "opened"
      using assms(1) by (simp add: session_inv_def)
    then obtain f fs where fr: "sent (cl s) = f # fs" "f = TextFrame h"
      using assms(1) by (cases "sent (cl s)") (auto simp: session_inv_def)
    have st: "step s ev
        = (record_body data s)\<lparr>rc := (rc (record_body data s))\<lparr>in_body := False\<rparr>\<rparr>"
      using True LoopBody by (simp add: Let_def)
    obtain fs' where "sent (cl (record_body data s)) = f # fs'"
      using sent_record_body [of data s] fr(1) by auto
    then show ?thesis
      using op st fr(2) LoopBody by (simp add: session_inv_def)
  qed
qed

lemma callbacks_in_order_tail:
  "callbacks_in_order opened (ev # evs) \<Longrightarrow> callbacks_in_order (opened \<or> ev = WsOpen) evs"
  by (cases ev) auto

lemma run_keeps_session_inv:
  "callbacks_in_order opened evs \<Longrightarrow> session_inv h opened s \<Longrightarrow>
   \<exists>opened'. session_inv h opened' (run evs s)"
proof (induction evs arbitrary: opened s)
  case Nil
  then show ?case by (auto simp: run_def)
next
  case (Cons ev evs)
  have r: "run (ev # evs) s = run evs (step s ev)"
    by (simp add: run_def)
  show ?case
    using Cons.IH [OF callbacks_in_order_tail [OF Cons.prems(1)]
        step_keeps_session_inv [OF Cons.prems(2,1)]] r
    by simp
qed

lemma handshakes_step:
  "length (filter is_handshake (sent (cl (step s ev))))
     = length (filter is_handshake (sent (cl s))) + (if ev = WsOpen then 1 else 0)"
proof (cases ev)
  case WsOpen
  then show ?thesis by (simp add: on_open_def)
next
  case (WsMessage now parsed)
  then show ?thesis by (simp add: sent_on_message)
next
  case LoopTest
  then show ?thesis by simp
next
  case (LoopBody data)
  then show ?thesis
    using sent_record_body [of data s] by (auto simp: Let_def)
qed

lemma handshakes_run:
  "length (filter is_handshake (sent (cl (run evs s))))
     = length (filter is_handshake (sent (cl s))) + count_list evs WsOpen"
proof (induction evs arbitrary: s)
  case Nil
  show ?case by (simp add: run_def)
next
  case (Cons ev evs)
  have r: "run (ev # evs) s = run evs (step s ev)"
    by (simp add: run_def)
  show ?case
    using Cons.IH [of "step s ev"] handshakes_step [of s ev] r by simp
qed

text \<open>
  C8. Take any interleaving of the callbacks with the steps of \<^verbatim>\<open>record\<close> in which the
  library calls \<^verbatim>\<open>on_open\<close> before it delivers a message. Then \<^verbatim>\<open>on_open\<close> sends the
  handshake and nothing else, at once; the frames sent on the connection start with the
  handshake built from the configuration and the session id of the client as constructed,
  so that every audio frame comes after it; and there are as many handshake frames as
  calls of \<^verbatim>\<open>on_open\<close>, one for a connection that opens once.
\<close>

theorem handshake_precedes_audio:
  assumes "callbacks_in_order False evs"
  shows "handshake_first (auth_message (init_client cfg uuid4))
           (sent (cl (run evs (init_session cfg uuid4))))
       \<and> length (filter is_handshake (sent (cl (run evs (init_session cfg uuid4)))))
           = count_list evs WsOpen
       \<and> sent (cl (step s WsOpen)) = sent (cl s) @ [TextFrame (auth_message (cl s))]"
proof -
  have i0: "session_inv (auth_message (init_client cfg uuid4)) False (init_session cfg uuid4)"
    by (simp add: session_inv_def init_session_def init_client_def)
  obtain opened' where
    "session_inv (auth_message (init_client cfg uuid4)) opened' (run evs (init_session cfg uuid4))"
    using run_keeps_session_inv [OF assms i0] by blast
  then have a: "handshake_first (auth_message (init_client cfg uuid4))
           (sent (cl (run evs (init_session cfg uuid4))))"
    by (cases "sent (cl (run evs (init_session cfg uuid4)))")
       (simp_all add: session_inv_def handshake_first_def)
  have b: "length (filter is_handshake (sent (cl (run evs (init_session cfg uuid4)))))
           = count_list evs WsOpen"
    using handshakes_run [of evs "init_session cfg uuid4"]
    by (simp add: init_session_def init_client_def)
  show ?thesis using a b by (simp add: on_open_def)
qed

theorem handshake_precedes_audio_witness:
  "callbacks_in_order False
     [LoopTest, LoopBody [0, 0x40], WsOpen,
      WsMessage 1 (Some \<lparr>msg_session_id = None, msg_status = None,
                          msg_message = Some ''SERVER_READY'', msg_segments = None,
                          msg_language = None, msg_language_confidence = None\<rparr>),
      LoopTest, LoopBody [0, 0x40]]
   \<and> sent (cl (run
       [LoopTest, LoopBody [0, 0x40], WsOpen,
        WsMessage 1 (Some \<lparr>msg_session_id = None, msg_status = None,
                            msg_message = Some ''SERVER_READY'', msg_segments = None,
                            msg_language = None, msg_language_confidence = None\<rparr>),
        LoopTest, LoopBody [0, 0x40]]
       (init_session
          \<lparr>host = ''wss://api.talkscriber.com'', port = 9090, api_key = ''key'',
           multilingual = False, language = Some ''en'', translate = False\<rparr> ''uid-1'')))
     = [TextFrame [(''uid'', JStr ''uid-1''), (''multilingual'', JBool False),
                   (''language'', JStr ''en''), (''task'', JStr ''transcribe''),
                   (''auth'', JStr ''key'')],
        BinaryFrame [1 / 2]]
   \<and> handshake_first
       [(''uid'', JStr ''uid-1''), (''multilingual'', JBool False),
        (''language'', JStr ''en''), (''task'', JStr ''transcribe''), (''auth'', JStr ''key'')]
       [TextFrame [(''uid'', JStr ''uid-1''), (''multilingual'', JBool False),
                   (''language'', JStr ''en''), (''task'', JStr ''transcribe''),
                   (''auth'', JStr ''key'')],
        BinaryFrame [1 / 2]]"
proof -
  let ?evs = "[LoopTest, LoopBody [0, 0x40], WsOpen,
      WsMessage 1 (Some \<lparr>msg_session_id = None, msg_status = None,
                          msg_message = Some ''SERVER_READY'', msg_segments = None,
                          msg_language = None, msg_language_confidence = None\<rparr>),
      LoopTest, LoopBody [0, 0x40]]"
  let ?cfg = "\<lparr>host = ''wss://api.talkscriber.com'', port = 9090, api_key = ''key'',
           multilingual = False, language = Some ''en'', translate = False\<rparr>"
  have h: "callbacks_in_order False ?evs"
    by simp
  have v: "sent (cl (run ?evs (init_session ?cfg ''uid-1'')))
     = [TextFrame [(''uid'', JStr ''uid-1''), (''multilingual'', JBool False),
                   (''language'', JStr ''en''), (''task'', JStr ''transcribe''),
                   (''auth'', JStr ''key'')],
        BinaryFrame [1 / 2]]"
    by (simp add: run_def init_session_def init_client_def on_open_def on_message_def
        auth_message_def record_body_def stream_audio_packet_def convert_bytes_to_float_def
        int16_le_def rate_def Let_def)
  have a: "auth_message (init_client ?cfg ''uid-1'')
     = [(''uid'', JStr ''uid-1''), (''multilingual'', JBool False),
        (''language'', JStr ''en''), (''task'', JStr ''transcribe''), (''auth'', JStr ''key'')]"
    by (simp add: auth_message_def init_client_def)
  show ?thesis
    using handshake_precedes_audio [OF h, of ?cfg "''uid-1''"] h v a by simp
qed

text \<open>
  The order of the callbacks is the library's part: were a \<^verbatim>\<open>SERVER_READY\<close> message
  handled before \<^verbatim>\<open>on_open\<close>, an audio frame would go out first.
\<close>

lemma audio_first_when_message_precedes_open:
  "sent (cl (run
       [WsMessage 1 (Some \<lparr>msg_session_id = None, msg_status = None,
                            msg_message = Some ''SERVER_READY'', msg_segments = None,
                            msg_language = None, msg_language_confidence = None\<rparr>),
        LoopTest, LoopBody [0, 0x40], WsOpen]
       (init_session
          \<lparr>host = ''wss://api.talkscriber.com'', port = 9090, api_key = ''key'',
           multilingual = False, language = Some ''en'', translate = False\<rparr> ''uid-1'')))
     = [BinaryFrame [1 / 2],
        TextFrame [(''uid'', JStr ''uid-1''), (''multilingual'', JBool False),
                   (''language'', JStr ''en''), (''task'', JStr ''transcribe''),
                   (''auth'', JStr ''key'')]]"
  by (simp add: run_def init_session_def init_client_def on_open_def on_message_def
      auth_message_def record_body_def stream_audio_packet_def convert_bytes_to_float_def
      int16_le_def rate_def Let_def)

text \<open>Samples: \<open>0x4000\<close> is one half, \<open>0xFFFF\<close> is \<open>-1\<close>; an odd byte raises.\<close>

lemma conv_ex: "convert_bytes_to_float [0, 0x40] = Inr [1 / 2]"
  by (simp add: convert_bytes_to_float_def int16_le_def)

lemma conv_ex2: "convert_bytes_to_float [0xFF, 0xFF, 0, 0x80] = Inr [- 1 / 32768, - 1]"
  by (simp add: convert_bytes_to_float_def int16_le_def)

lemma conv_ex3: "convert_bytes_to_float [0xFF] = Inl \<lparr>exc_cls = ValueError,
                     exc_msg = ''buffer size must be a multiple of element size''\<rparr>"
  by (simp add: convert_bytes_to_float_def int16_le_def)


section \<open>Properties of the batch polling client\<close>


lemma fst_emit: "fst (emit es res) = fst res"
  by (simp add: emit_def)

lemma wait_loop_outcome_state:
  "fst (wait_loop poll_interval timeout start_time st rs)
     = fst (wait_loop poll_interval timeout start_time st' rs)"
proof (induction rs arbitrary: st st')
  case Nil
  show ?case by simp
next
  case (Cons r rs)
  show ?case
  proof (cases "fetched r")
    case (Inl e)
    then show ?thesis using Cons.IH [of st st'] by (simp add: fst_emit)
  next
    case (Inr job_status)
    obtain sa pa where a: "report_status st (dict_get job_status ''status'') r = (sa, pa)"
      by (cases "report_status st (dict_get job_status ''status'') r")
    obtain sb pb where b: "report_status st' (dict_get job_status ''status'') r = (sb, pb)"
      by (cases "report_status st' (dict_get job_status ''status'') r")
    show ?thesis using Inr a b Cons.IH [of sa sb] by (simp add: fst_emit Let_def)
  qed
qed

lemma wait_loop_keeps_polling:
  assumes "keeps_polling timeout start_time r"
  shows "fst (wait_loop poll_interval timeout start_time st (r # rs))
           = fst (wait_loop poll_interval timeout start_time st rs)"
proof (cases "fetched r")
  case (Inl e)
  then show ?thesis using assms by (simp add: keeps_polling_def fst_emit)
next
  case (Inr job_status)
  obtain sa pa where a: "report_status st (dict_get job_status ''status'') r = (sa, pa)"
    by (cases "report_status st (dict_get job_status ''status'') r")
  show ?thesis
    using Inr a assms wait_loop_outcome_state [of poll_interval timeout start_time sa rs st]
    by (simp add: keeps_polling_def fst_emit Let_def)
qed

lemma wait_loop_skip_prefix:
  "\<forall>q\<in>set pre. keeps_polling timeout start_time q \<Longrightarrow>
   fst (wait_loop poll_interval timeout start_time st (pre @ rs))
     = fst (wait_loop poll_interval timeout start_time st rs)"
proof (induction pre)
  case Nil
  show ?case by simp
next
  case (Cons q pre)
  have "fst (wait_loop poll_interval timeout start_time st ((q # pre) @ rs))
          = fst (wait_loop poll_interval timeout start_time st (pre @ rs))"
    using Cons.prems wait_loop_keeps_polling [of timeout start_time q] by simp
  then show ?case using Cons by simp
qed

text \<open>
  C1. Take any run of the loop whose earlier rounds all kept polling, and a round that
  passes the timeout check and fetches a status dictionary. If the status is \<^verbatim>\<open>"DONE"\<close>,
  the call returns that dictionary. If it is \<^verbatim>\<open>"FAILED"\<close>, \<^verbatim>\<open>"FAILED_TS_TRANSCRIBE"\<close> or
  \<^verbatim>\<open>"FAILED_TRANSCRIBE"\<close>, the call raises. For any other value the loop goes on: the
  result is that of the rounds that follow, and the loop is still polling when no round
  follows.
\<close>

theorem status_decides_polling:
  assumes "\<forall>q\<in>set pre. keeps_polling timeout start_time q"
    and "t_check r - start_time \<le> real_of_int timeout"
    and "fetched r = Inr job_status"
  shows "(dict_get job_status ''status'' = JStr ''DONE'' \<longrightarrow>
            fst (wait_for_job_completion job_id poll_interval timeout start_time t_status (pre @ r # rs))
              = Returned job_status)
       \<and> (\<forall>s \<in> {''FAILED'', ''FAILED_TS_TRANSCRIBE'', ''FAILED_TRANSCRIBE''}.
            dict_get job_status ''status'' = JStr s \<longrightarrow>
            fst (wait_for_job_completion job_id poll_interval timeout start_time t_status (pre @ r # rs))
              = Raised \<lparr>exc_cls = Exception, exc_msg = ''Job failed with status: '' @ s\<rparr>)
       \<and> (dict_get job_status ''status''
              \<notin> {JStr ''DONE'', JStr ''FAILED'', JStr ''FAILED_TS_TRANSCRIBE'', JStr ''FAILED_TRANSCRIBE''} \<longrightarrow>
            fst (wait_for_job_completion job_id poll_interval timeout start_time t_status (pre @ r # rs))
              = fst (wait_for_job_completion job_id poll_interval timeout start_time t_status rs)
            \<and> fst (wait_for_job_completion job_id poll_interval timeout start_time t_status (pre @ [r]))
              = Polling)"
proof -
  let ?st = "\<lparr>last_status = JNull, status_start_time = t_status\<rparr>"
  have skip: "fst (wait_for_job_completion job_id poll_interval timeout start_time t_status (pre @ xs))
                = fst (wait_loop poll_interval timeout start_time ?st xs)" for xs
    using assms(1) by (simp add: wait_for_job_completion_def fst_emit wait_loop_skip_prefix)
  have whole: "fst (wait_for_job_completion job_id poll_interval timeout start_time t_status xs)
                = fst (wait_loop poll_interval timeout start_time ?st xs)" for xs
    by (simp add: wait_for_job_completion_def fst_emit)
  have succ: "dict_get job_status ''status'' = JStr ''DONE'' \<Longrightarrow>
      fst (wait_loop poll_interval timeout start_time ?st (r # rs)) = Returned job_status"
    using assms(2,3) by simp
  have failed: "dict_get job_status ''status'' = JStr s \<Longrightarrow>
      s \<in> {''FAILED'', ''FAILED_TS_TRANSCRIBE'', ''FAILED_TRANSCRIBE''} \<Longrightarrow>
      fst (wait_loop poll_interval timeout start_time ?st (r # rs))
        = Raised \<lparr>exc_cls = Exception, exc_msg = ''Job failed with status: '' @ s\<rparr>" for s
    using assms(2,3) by (auto simp: failure_statuses_def status_text_def)
  have other: "fst (wait_loop poll_interval timeout start_time ?st (r # xs))
                 = fst (wait_loop poll_interval timeout start_time ?st xs)"
    if "dict_get job_status ''status''
          \<notin> {JStr ''DONE'', JStr ''FAILED'', JStr ''FAILED_TS_TRANSCRIBE'', JStr ''FAILED_TRANSCRIBE''}"
    for xs
  proof -
    have "keeps_polling timeout start_time r"
      using that assms(2,3) by (simp add: keeps_polling_def failure_statuses_def)
    then show ?thesis by (rule wait_loop_keeps_polling)
  qed
  show ?thesis
    using succ failed other [of rs] other [of "[]"] skip [of "r # rs"] skip [of "[r]"] whole [of rs]
    by simp
qed

theorem status_decides_polling_witness:
  "keeps_polling 10 0
     \<lparr>t_check = 1, fetched = Inr [(''status'', JStr ''RUNNING'')], t_after = 1, t_reset = 1\<rparr>
   \<and> fst (wait_for_job_completion ''job'' 2 10 0 0
       [\<lparr>t_check = 1, fetched = Inr [(''status'', JStr ''RUNNING'')], t_after = 1, t_reset = 1\<rparr>,
        \<lparr>t_check = 3, fetched = Inr [(''status'', JStr ''DONE''), (''results'', JArr [])],
           t_after = 4, t_reset = 4\<rparr>])
       = Returned [(''status'', JStr ''DONE''), (''results'', JArr [])]
   \<and> fst (wait_for_job_completion ''job'' 2 10 0 0
       [\<lparr>t_check = 1, fetched = Inr [(''status'', JStr ''RUNNING'')], t_after = 1, t_reset = 1\<rparr>,
        \<lparr>t_check = 3, fetched = Inr [(''status'', JStr ''FAILED'')], t_after = 4, t_reset = 4\<rparr>])
       = Raised \<lparr>exc_cls = Exception, exc_msg = ''Job failed with status: FAILED''\<rparr>
   \<and> fst (wait_for_job_completion ''job'' 2 10 0 0
       [\<lparr>t_check = 1, fetched = Inr [(''status'', JStr ''RUNNING'')], t_after = 1, t_reset = 1\<rparr>,
        \<lparr>t_check = 3, fetched = Inr [(''status'', JStr ''QUEUED'')], t_after = 4, t_reset = 4\<rparr>])
       = Polling"
proof -
  let ?q = "\<lparr>t_check = 1, fetched = Inr [(''status'', JStr ''RUNNING'')], t_after = 1, t_reset = 1\<rparr>"
  have kp: "keeps_polling 10 0 ?q"
    by (simp add: keeps_polling_def dict_get_def failure_statuses_def)
  then have pre: "\<forall>q\<in>set [?q]. keeps_polling 10 0 q"
    by simp
  have a: "fst (wait_for_job_completion ''job'' 2 10 0 0
       ([?q] @ \<lparr>t_check = 3, fetched = Inr [(''status'', JStr ''DONE''), (''results'', JArr [])],
           t_after = 4, t_reset = 4\<rparr> # []))
       = Returned [(''status'', JStr ''DONE''), (''results'', JArr [])]"
    using status_decides_polling [OF pre, where r = "\<lparr>t_check = 3,
        fetched = Inr [(''status'', JStr ''DONE''), (''results'', JArr [])],
        t_after = 4, t_reset = 4\<rparr>" and rs = "[]" and t_status = 0 and job_id = "''job''"
        and poll_interval = 2
        and job_status = "[(''status'', JStr ''DONE''), (''results'', JArr [])]"]
    by (simp add: dict_get_def)
  have b: "fst (wait_for_job_completion ''job'' 2 10 0 0
       ([?q] @ \<lparr>t_check = 3, fetched = Inr [(''status'', JStr ''FAILED'')],
           t_after = 4, t_reset = 4\<rparr> # []))
       = Raised \<lparr>exc_cls = Exception, exc_msg = ''Job failed with status: FAILED''\<rparr>"
    using status_decides_polling [OF pre, where r = "\<lparr>t_check = 3,
        fetched = Inr [(''status'', JStr ''FAILED'')],
        t_after = 4, t_reset = 4\<rparr>" and rs = "[]" and t_status = 0 and job_id = "''job''"
        and poll_interval = 2 and job_status = "[(''status'', JStr ''FAILED'')]"]
    by (simp add: dict_get_def)
  have other: "dict_get [(''status'', JStr ''QUEUED'')] ''status''
      \<notin> {JStr ''DONE'', JStr ''FAILED'', JStr ''FAILED_TS_TRANSCRIBE'', JStr ''FAILED_TRANSCRIBE''}"
    by (simp add: dict_get_def)
  have c: "fst (wait_for_job_completion ''job'' 2 10 0 0
       ([?q] @ [\<lparr>t_check = 3, fetched = Inr [(''status'', JStr ''QUEUED'')],
           t_after = 4, t_reset = 4\<rparr>]))
       = Polling"
    using status_decides_polling [OF pre, where r = "\<lparr>t_check = 3,
        fetched = Inr [(''status'', JStr ''QUEUED'')],
        t_after = 4, t_reset = 4\<rparr>" and rs = "[]" and t_status = 0 and job_id = "''job''"
        and poll_interval = 2 and job_status = "[(''status'', JStr ''QUEUED'')]",
        THEN conjunct2, THEN conjunct2, THEN mp, OF _ _ other, THEN conjunct2]
    by simp
  show ?thesis using kp a b c by simp
qed

text \<open>
  C2, as stated, asks for a \<^verbatim>\<open>TimeoutError\<close>. The loop raises
  \<^verbatim>\<open>Exception(f"Job timed out after {timeout} seconds")\<close>: with a timeout of one second
  and a first check two seconds after the start, the exception raised has class
  \<^verbatim>\<open>Exception\<close>, which \<^verbatim>\<open>except TimeoutError\<close> does not catch.
\<close>

theorem timeout_error_class_counterexample:
  "fst (wait_for_job_completion ''job'' 2 1 0 0
     [\<lparr>t_check = 2, fetched = Inr [(''status'', JStr ''RUNNING'')], t_after = 2, t_reset = 2\<rparr>])
     = Raised \<lparr>exc_cls = Exception, exc_msg = ''Job timed out after 1 seconds''\<rparr>
   \<and> fst (wait_for_job_completion ''job'' 2 1 0 0
     [\<lparr>t_check = 2, fetched = Inr [(''status'', JStr ''RUNNING'')], t_after = 2, t_reset = 2\<rparr>])
     \<noteq> Raised \<lparr>exc_cls = TimeoutError, exc_msg = ''Job timed out after 1 seconds''\<rparr>"
  by (simp add: wait_for_job_completion_def emit_def str_int_def str_nat.simps digit_char_def)

text \<open>
  C2, amended. When every earlier round kept polling (no terminal status; fetch failures
  included) and a round's timeout check finds more than \<open>timeout\<close> seconds elapsed, the
  call raises a plain \<^verbatim>\<open>Exception\<close> with the message
  \<^verbatim>\<open>Job timed out after {timeout} seconds\<close>. A fetch that raises on a round that passed
  the timeout check is printed, followed by a sleep of \<open>poll_interval\<close>, and the loop goes
  on with the next round in the same state: the fetch's exception is not raised.
\<close>

theorem timeout_raises_plain_exception:
  assumes "\<forall>q\<in>set pre. keeps_polling timeout start_time q"
    and "t_check r - start_time > real_of_int timeout"
  shows "fst (wait_for_job_completion job_id poll_interval timeout start_time t_status (pre @ r # rs))
           = Raised \<lparr>exc_cls = Exception,
                     exc_msg = ''Job timed out after '' @ str_int timeout @ '' seconds''\<rparr>
       \<and> (\<forall>q e qs st. t_check q - start_time \<le> real_of_int timeout \<and> fetched q = Inl e \<longrightarrow>
            wait_loop poll_interval timeout start_time st (q # qs)
              = emit [Print (ErrorFetch (exc_msg e)), Sleep poll_interval]
                  (wait_loop poll_interval timeout start_time st qs))"
proof -
  have "fst (wait_for_job_completion job_id poll_interval timeout start_time t_status (pre @ r # rs))
          = fst (wait_loop poll_interval timeout start_time
                   \<lparr>last_status = JNull, status_start_time = t_status\<rparr> (r # rs))"
    using assms(1) by (simp add: wait_for_job_completion_def fst_emit wait_loop_skip_prefix)
  then show ?thesis using assms(2) by simp
qed

theorem timeout_raises_plain_exception_witness:
  "keeps_polling 5 0
     \<lparr>t_check = 1, fetched = Inl \<lparr>exc_cls = Exception, exc_msg = ''Failed to get job status: reset''\<rparr>,
      t_after = 1, t_reset = 1\<rparr>
   \<and> fst (wait_for_job_completion ''job'' 2 5 0 0
       [\<lparr>t_check = 1, fetched = Inl \<lparr>exc_cls = Exception, exc_msg = ''Failed to get job status: reset''\<rparr>,
          t_after = 1, t_reset = 1\<rparr>,
        \<lparr>t_check = 6, fetched = Inr [(''status'', JStr ''DONE'')], t_after = 6, t_reset = 6\<rparr>])
       = Raised \<lparr>exc_cls = Exception, exc_msg = ''Job timed out after 5 seconds''\<rparr>
   \<and> wait_loop 2 5 0 \<lparr>last_status = JNull, status_start_time = 0\<rparr>
       [\<lparr>t_check = 1, fetched = Inl \<lparr>exc_cls = Exception, exc_msg = ''Failed to get job status: reset''\<rparr>,
          t_after = 1, t_reset = 1\<rparr>]
       = (Polling, [Print (ErrorFetch ''Failed to get job status: reset''), Sleep 2])"
proof -
  let ?q = "\<lparr>t_check = 1,
             fetched = Inl \<lparr>exc_cls = Exception, exc_msg = ''Failed to get job status: reset''\<rparr>,
             t_after = 1, t_reset = 1\<rparr>"
  let ?r = "\<lparr>t_check = 6, fetched = Inr [(''status'', JStr ''DONE'')], t_after = 6, t_reset = 6\<rparr>"
  have kp: "keeps_polling 5 0 ?q"
    by (simp add: keeps_polling_def)
  then have pre: "\<forall>q\<in>set [?q]. keeps_polling 5 0 q"
    by simp
  have late: "t_check ?r - 0 > real_of_int 5"
    by simp
  note t = timeout_raises_plain_exception [OF pre late, where rs = "[]" and t_status = 0
      and job_id = "''job''" and poll_interval = 2]
  have a: "fst (wait_for_job_completion ''job'' 2 5 0 0 ([?q] @ ?r # []))
             = Raised \<lparr>exc_cls = Exception, exc_msg = ''Job timed out after 5 seconds''\<rparr>"
    using t by (simp add: str_int_def str_nat.simps digit_char_def)
  have b: "wait_loop 2 5 0 \<lparr>last_status = JNull, status_start_time = 0\<rparr> (?q # [])
             = emit [Print (ErrorFetch ''Failed to get job status: reset''), Sleep 2]
                 (wait_loop 2 5 0 \<lparr>last_status = JNull, status_start_time = 0\<rparr> [])"
    using t by simp
  show ?thesis using kp a b by (simp add: emit_def)
qed


section \<open>Properties of the latency sampler\<close>

subsection \<open>Sorted lists and in-range indexing\<close>

lemma sorted_nth_0_Min:
  assumes "sorted xs" "xs \<noteq> []"
  shows "xs ! 0 = Min (set (xs :: real list))"
proof -
  have "\<And>y. y \<in> set xs \<Longrightarrow> xs ! 0 \<le> y"
    using assms by (metis in_set_conv_nth le0 sorted_nth_mono)
  then show ?thesis
    using assms by (intro Min_eqI [symmetric]) auto
qed

lemma sorted_nth_last_Max:
  assumes "sorted xs" "xs \<noteq> []"
  shows "xs ! (length xs - 1) = Max (set (xs :: real list))"
proof -
  have "\<And>y. y \<in> set xs \<Longrightarrow> y \<le> xs ! (length xs - 1)"
  proof -
    fix y assume "y \<in> set xs"
    then obtain i where "i < length xs" "xs ! i = y"
      by (auto simp: in_set_conv_nth)
    then show "y \<le> xs ! (length xs - 1)"
      using assms sorted_nth_mono [of xs i "length xs - 1"] by auto
  qed
  then show ?thesis
    using assms by (intro Max_eqI [symmetric]) auto
qed

lemma py_int_of_nat: "py_int (real k) = int k"
  by (simp add: py_int_def)

lemma py_index_in_range:
  "0 \<le> i \<Longrightarrow> i < int (length xs) \<Longrightarrow> py_index xs i = Inr (xs ! nat i)"
  by (simp add: py_index_def)

lemma calculate_percentile_in_range:
  assumes "py_int (percentile_index rnd (sort data) p) = int k"
    and "k < length data"
  shows "calculate_percentile rnd data p =
     (if Suc k \<ge> length data then Inr (sort data ! k)
      else Inr (rnd (rnd (sort data ! k
                           * rnd (1 - rnd (percentile_index rnd (sort data) p - real k)))
                    + rnd (sort data ! Suc k
                           * rnd (percentile_index rnd (sort data) p - real k)))))"
proof -
  have ne: "data \<noteq> []"
    using assms(2) by auto
  have a: "py_index (sort data) (int k) = Inr (sort data ! k)"
    using assms(2) by (simp add: py_index_in_range)
  have b: "py_index (sort data) (int k + 1) = Inr (sort data ! Suc k)"
    if "Suc k < length data"
    using that py_index_in_range [of "int k + 1" "sort data"] by (simp add: nat_add_distrib)
  show ?thesis
  proof (cases "Suc k \<ge> length data")
    case True
    then have "int k + 1 \<ge> int (length data)" by simp
    then show ?thesis
      using True ne assms(1) a by (simp add: calculate_percentile_def Let_def)
  next
    case False
    then have "\<not> int k + 1 \<ge> int (length data)" by simp
    then show ?thesis
      using False ne assms(1) a b by (simp add: calculate_percentile_def Let_def)
  qed
qed

lemma percentile_index_bounds:
  assumes "0 \<le> p" "p \<le> 100" "mono rnd"
    and "exact_on rnd {0, real (length xs - 1), real (length xs - 1) * 100}"
  shows "0 \<le> percentile_index rnd xs p \<and> percentile_index rnd xs p \<le> real (length xs - 1)"
proof -
  let ?m = "real (length xs - 1)"
  have r0: "rnd 0 = 0" and rn: "rnd ?m = ?m" and rh: "rnd (?m * 100) = ?m * 100"
    using assms(4) by (simp_all add: exact_on_def)
  have "0 \<le> ?m * p"
    using assms(1) by simp
  then have "rnd 0 \<le> rnd (?m * p)"
    using assms(3) by (rule monoD [rotated])
  then have lo1: "0 \<le> rnd (?m * p) / 100"
    using r0 by simp
  then have "rnd 0 \<le> rnd (rnd (?m * p) / 100)"
    using assms(3) by (rule monoD [rotated])
  then have lo: "0 \<le> percentile_index rnd xs p"
    using r0 by (simp only: percentile_index_def)
  have "?m * p \<le> ?m * 100"
    using assms(2) by (simp add: mult_left_mono)
  then have "rnd (?m * p) \<le> rnd (?m * 100)"
    using assms(3) by (rule monoD [rotated])
  then have "rnd (?m * p) / 100 \<le> ?m"
    using rh by simp
  then have "rnd (rnd (?m * p) / 100) \<le> rnd ?m"
    using assms(3) by (rule monoD [rotated])
  then have hi: "percentile_index rnd xs p \<le> ?m"
    using rn by (simp only: percentile_index_def)
  show ?thesis using lo hi by simp
qed

subsection \<open>Percentile 0 and 100\<close>

text \<open>
  C3. For a non-empty list of samples, percentile 0 is the minimum and percentile 100 the
  maximum. This holds for every rounding that leaves the samples and the integers
  \<open>0\<close>, \<open>1\<close>, \<open>len - 1\<close> and \<open>100 * (len - 1)\<close> as they are, as the rounding of doubles
  does for samples that are floats: on both paths no operation rounds.
\<close>

theorem percentile_0_min_100_max:
  assumes "data \<noteq> []"
    and "exact_on rnd (set data \<union> {0, 1, real (length data - 1), real (length data - 1) * 100})"
  shows "calculate_percentile rnd data 0 = Inr (Min (set data))
       \<and> calculate_percentile rnd data 100 = Inr (Max (set data))"
proof -
  let ?s = "sort data"
  let ?n = "length data"
  have r0: "rnd 0 = 0" and r1: "rnd 1 = 1"
    and rn: "rnd (real (?n - 1)) = real (?n - 1)"
    and rh: "rnd (real (?n - 1) * 100) = real (?n - 1) * 100"
    and rd: "\<And>x. x \<in> set data \<Longrightarrow> rnd x = x"
    using assms(2) by (simp_all add: exact_on_def)
  have s_sorted: "sorted ?s" and s_len: "length ?s = ?n"
    by simp_all
  have s_ne: "?s \<noteq> []"
    using assms(1) s_len by (metis length_0_conv)
  have n_pos: "0 < ?n" using assms(1) by simp
  have nth_data: "rnd (?s ! i) = ?s ! i" if "i < ?n" for i
  proof -
    have "?s ! i \<in> set ?s" using that by (simp del: set_sort)
    then show ?thesis using rd by simp
  qed
  have first: "?s ! 0 = Min (set data)"
    using sorted_nth_0_Min [OF s_sorted s_ne] by simp
  have lst: "?s ! (?n - 1) = Max (set data)"
    using sorted_nth_last_Max [OF s_sorted s_ne] by simp
  have idx0: "percentile_index rnd ?s 0 = 0"
    by (simp add: percentile_index_def r0)
  have idx100: "percentile_index rnd ?s 100 = real (?n - 1)"
    using rh rn by (simp add: percentile_index_def)
  have l0: "py_int (percentile_index rnd ?s 0) = int 0"
    by (simp add: idx0 py_int_def)
  have low: "calculate_percentile rnd data 0 = Inr (?s ! 0)"
    using calculate_percentile_in_range [OF l0 n_pos] nth_data [of 0] n_pos
    by (simp add: idx0 r0 r1)
  have l100: "py_int (percentile_index rnd ?s 100) = int (?n - 1)"
    by (simp only: idx100 py_int_of_nat)
  have high: "calculate_percentile rnd data 100 = Inr (?s ! (?n - 1))"
    using calculate_percentile_in_range [OF l100] n_pos by simp
  show ?thesis using low high first lst by simp
qed

theorem percentile_0_min_100_max_witness:
  "exact_on fl (set [1 / 2, 4, 1 / 4] \<union> {0, 1, real (length [1 / 2, 4, 1 / 4 :: real] - 1),
      real (length [1 / 2, 4, 1 / 4 :: real] - 1) * 100})
   \<and> calculate_percentile fl [1 / 2, 4, 1 / 4] 0 = Inr (1 / 4)
   \<and> calculate_percentile fl [1 / 2, 4, 1 / 4] 100 = Inr 4"
proof -
  have v: "fl 0 = 0" "fl 1 = 1" "fl 2 = 2" "fl 200 = 200" "fl (1 / 2) = 1 / 2" "fl 4 = 4"
    "fl (1 / 4) = 1 / 4"
    by code_simp+
  have ex: "exact_on fl (set [1 / 2, 4, 1 / 4] \<union> {0, 1, real (length [1 / 2, 4, 1 / 4 :: real] - 1),
      real (length [1 / 2, 4, 1 / 4 :: real] - 1) * 100})"
    using v by (simp add: exact_on_def)
  have ne: "[1 / 2, 4, 1 / 4 :: real] \<noteq> []"
    by simp
  show ?thesis
    using percentile_0_min_100_max [OF ne ex] ex by simp
qed

subsection \<open>Index safety\<close>

text \<open>
  C9, as stated, ends with "this safety guarantee holds only under the precondition
  \<open>0 \<le> p \<le> 100\<close>". The precondition is sufficient, not necessary: for the samples \<open>[1, 2]\<close>
  the percentile \<open>150\<close> gives the lower index \<open>1\<close> and the upper index \<open>2 = len\<close>, which is
  not read, and the percentile \<open>-1\<close> gives the indices \<open>0\<close> and \<open>1\<close>; both are in bounds and
  both calls return a value, in exact arithmetic and in doubles.
\<close>

theorem percentile_in_bounds_outside_precondition:
  "(100 :: real) < 150
   \<and> py_int (percentile_index (\<lambda>x. x) (sort [1, 2]) 150) = 1
   \<and> calculate_percentile (\<lambda>x. x) [1, 2] 150 = Inr 2
   \<and> (- 1 :: real) < 0
   \<and> py_int (percentile_index (\<lambda>x. x) (sort [1, 2]) (- 1)) = 0
   \<and> calculate_percentile (\<lambda>x. x) [1, 2] (- 1) = Inr (99 / 100)
   \<and> calculate_percentile fl [1, 2] 150 = Inr 2"
proof -
  have a: "py_int (percentile_index (\<lambda>x. x) (sort [1, 2]) 150) = 1"
    by (simp add: percentile_index_def py_int_def)
  have b: "calculate_percentile (\<lambda>x. x) [1, 2] 150 = Inr 2"
    by (simp add: calculate_percentile_def percentile_index_def py_int_def py_index_def)
  have c: "py_int (percentile_index (\<lambda>x. x) (sort [1, 2]) (- 1)) = 0"
    by code_simp
  have d: "calculate_percentile (\<lambda>x. x) [1, 2] (- 1) = Inr (99 / 100)"
    by code_simp
  have e: "calculate_percentile fl [1, 2] 150 = Inr 2"
    by code_simp
  show ?thesis using a b c d e by simp
qed

text \<open>
  C9, amended. For a non-empty list and \<open>0 \<le> p \<le> 100\<close> the lower index lies in
  \<open>0 \<le> lower < len\<close>, the upper index \<open>lower + 1\<close> is read only when it is below \<open>len\<close>, and
  the function returns a value. The rounding may be any monotone one that leaves \<open>0\<close>,
  \<open>len - 1\<close> and \<open>100 * (len - 1)\<close> as they are. Outside \<open>0 \<le> p \<le> 100\<close> nothing is
  guaranteed either way: for the samples \<open>[1, 2]\<close> the percentiles \<open>200\<close> and \<open>-300\<close> raise
  \<^verbatim>\<open>IndexError\<close>, the percentiles \<open>150\<close> and \<open>-1\<close> return a value, and a list of one sample
  returns that sample for every percentile.
\<close>

theorem percentile_indexing_in_bounds:
  assumes "data \<noteq> []" "0 \<le> p" "p \<le> 100" "mono rnd"
    and "exact_on rnd {0, real (length data - 1), real (length data - 1) * 100}"
  shows "(let sorted_data = sort data;
              index = percentile_index rnd sorted_data p;
              lower = py_int index;
              weight = rnd (index - of_int lower)
          in 0 \<le> lower \<and> lower < int (length sorted_data)
             \<and> calculate_percentile rnd data p =
                 (if lower + 1 \<ge> int (length sorted_data) then Inr (sorted_data ! nat lower)
                  else Inr (rnd (rnd (sorted_data ! nat lower * rnd (1 - weight))
                                + rnd (sorted_data ! nat (lower + 1) * weight)))))
       \<and> calculate_percentile (\<lambda>x. x) [1, 2] 200
           = Inl \<lparr>exc_cls = IndexError, exc_msg = ''list index out of range''\<rparr>
       \<and> calculate_percentile (\<lambda>x. x) [1, 2] (- 300)
           = Inl \<lparr>exc_cls = IndexError, exc_msg = ''list index out of range''\<rparr>
       \<and> calculate_percentile (\<lambda>x. x) [1, 2] 150 = Inr 2
       \<and> calculate_percentile (\<lambda>x. x) [1, 2] (- 1) = Inr (99 / 100)
       \<and> calculate_percentile rnd [x] q = Inr x"
proof -
  let ?s = "sort data"
  let ?i = "percentile_index rnd ?s p"
  have ex: "exact_on rnd {0, real (length ?s - 1), real (length ?s - 1) * 100}"
    using assms(5) by simp
  have b: "0 \<le> ?i \<and> ?i \<le> real (length ?s - 1)"
    using percentile_index_bounds [OF assms(2,3,4) ex] .
  have n_pos: "0 < length data"
    using assms(1) by simp
  define k where "k = nat \<lfloor>?i\<rfloor>"
  have fl_lo: "0 \<le> \<lfloor>?i\<rfloor>"
    using b by simp
  have "\<lfloor>?i\<rfloor> \<le> int (length data - 1)"
    using b by (simp add: floor_le_iff)
  then have fl_hi: "\<lfloor>?i\<rfloor> < int (length data)"
    using n_pos by linarith
  have lower: "py_int ?i = int k"
    using b fl_lo by (simp add: py_int_def k_def)
  have k_lt: "k < length data"
    unfolding k_def using fl_hi fl_lo by linarith
  have main: "calculate_percentile rnd data p =
     (if Suc k \<ge> length data then Inr (?s ! k)
      else Inr (rnd (rnd (?s ! k * rnd (1 - rnd (?i - real k)))
                    + rnd (?s ! Suc k * rnd (?i - real k)))))"
    using calculate_percentile_in_range [OF lower k_lt] .
  have out_hi: "calculate_percentile (\<lambda>x. x) [1, 2] 200
                  = Inl \<lparr>exc_cls = IndexError, exc_msg = ''list index out of range''\<rparr>"
    by (simp add: calculate_percentile_def percentile_index_def py_int_def py_index_def)
  have out_lo: "calculate_percentile (\<lambda>x. x) [1, 2] (- 300)
                  = Inl \<lparr>exc_cls = IndexError, exc_msg = ''list index out of range''\<rparr>"
    by (simp add: calculate_percentile_def percentile_index_def py_int_def py_index_def)
  have in_hi: "calculate_percentile (\<lambda>x. x) [1, 2] 150 = Inr 2"
    by (simp add: calculate_percentile_def percentile_index_def py_int_def py_index_def)
  have in_lo: "calculate_percentile (\<lambda>x. x) [1, 2] (- 1) = Inr (99 / 100)"
    by code_simp
  have r0: "rnd 0 = 0"
    using assms(5) by (simp add: exact_on_def)
  have "py_int (percentile_index rnd (sort [x]) q) = int 0"
    using r0 by (simp add: percentile_index_def py_int_def)
  then have single: "calculate_percentile rnd [x] q = Inr x"
    using calculate_percentile_in_range [of rnd "[x]" q 0] by simp
  have "Suc k \<ge> length data \<longleftrightarrow> int k + 1 \<ge> int (length data)"
    by linarith
  moreover have "nat (int k + 1) = Suc k"
    by simp
  ultimately show ?thesis
    using main k_lt lower out_hi out_lo in_hi in_lo single by (simp add: Let_def)
qed

theorem percentile_indexing_in_bounds_witness:
  "mono (\<lambda>x :: real. x)
   \<and> exact_on (\<lambda>x. x) {0, real (length [10, 20, 30, 40 :: real] - 1),
        real (length [10, 20, 30, 40 :: real] - 1) * 100}
   \<and> py_int (percentile_index (\<lambda>x. x) (sort [10, 20, 30, 40]) 50) = 1
   \<and> calculate_percentile (\<lambda>x. x) [10, 20, 30, 40] 50 = Inr 25"
proof -
  have m: "mono (\<lambda>x :: real. x)"
    by (simp add: mono_def)
  have ex: "exact_on (\<lambda>x. x) {0, real (length [10, 20, 30, 40 :: real] - 1),
        real (length [10, 20, 30, 40 :: real] - 1) * 100}"
    by (simp add: exact_on_def)
  have ne: "[10, 20, 30, 40 :: real] \<noteq> []" by simp
  have p: "(0 :: real) \<le> 50" "(50 :: real) \<le> 100" by simp_all
  have l: "py_int (percentile_index (\<lambda>x. x) (sort [10, 20, 30, 40]) 50) = 1"
    by (simp add: percentile_index_def py_int_def)
  show ?thesis
    using percentile_indexing_in_bounds [OF ne p m ex] m ex l
    by (simp add: Let_def percentile_index_def)
qed

subsection \<open>The empty sample set\<close>

text \<open>
  C5, as stated, has every reported statistic return zero on an empty sample set. With no
  samples \<^verbatim>\<open>run_benchmark\<close> reports no statistic at all: it returns \<^verbatim>\<open>False\<close> before
  the statistics block. The functions it would call do not return zero on an empty list
  either: \<^verbatim>\<open>min\<close>, \<^verbatim>\<open>max\<close>, \<^verbatim>\<open>statistics.mean\<close> and \<^verbatim>\<open>statistics.median\<close> raise.
\<close>

theorem empty_samples_counterexample:
  "run_benchmark_statistics fl fl [] = Inr (False, None)
   \<and> py_min [] = Inl \<lparr>exc_cls = ValueError, exc_msg = ''min() arg is an empty sequence''\<rparr>
   \<and> py_max [] = Inl \<lparr>exc_cls = ValueError, exc_msg = ''max() arg is an empty sequence''\<rparr>
   \<and> statistics_mean fl []
       = Inl \<lparr>exc_cls = StatisticsError, exc_msg = ''mean requires at least one data point''\<rparr>
   \<and> statistics_median fl []
       = Inl \<lparr>exc_cls = StatisticsError, exc_msg = ''no median for empty data''\<rparr>"
  by (simp add: run_benchmark_statistics_def py_min_def py_max_def statistics_mean_def
      statistics_median_def)

text \<open>
  C5, amended. On an empty sample set \<^verbatim>\<open>calculate_percentile\<close> returns \<open>0.0\<close> for every
  percentile argument, and \<^verbatim>\<open>run_benchmark\<close> computes no statistic: it returns \<^verbatim>\<open>False\<close>
  without raising.
\<close>

theorem empty_samples_no_statistics:
  "calculate_percentile rnd [] p = Inr 0
   \<and> run_benchmark_statistics rnd fsqrt [] = Inr (False, None)"
  by (simp add: calculate_percentile_def run_benchmark_statistics_def)

subsection \<open>Monotonicity in the percentile argument\<close>

text \<open>
  C4, as stated, fails in double arithmetic. For three samples equal to the double
  nearest to \<open>0.1\<close>, percentile 10 is \<open>0.10000000000000002\<close> (the weights \<open>0.8\<close> and \<open>0.2\<close>
  are rounded, and so are the two products and their sum) and percentile 50 is the sample
  itself, which is smaller.
\<close>

theorem percentile_not_monotone_in_doubles:
  "calculate_percentile fl
     [3602879701896397 / 36028797018963968, 3602879701896397 / 36028797018963968,
      3602879701896397 / 36028797018963968] 10
     = Inr (7205759403792795 / 72057594037927936)
   \<and> calculate_percentile fl
     [3602879701896397 / 36028797018963968, 3602879701896397 / 36028797018963968,
      3602879701896397 / 36028797018963968] 50
     = Inr (3602879701896397 / 36028797018963968)
   \<and> (3602879701896397 / 36028797018963968 :: real) < 7205759403792795 / 72057594037927936
   \<and> fl (1 / 10) = 3602879701896397 / 36028797018963968"
  by code_simp

text \<open>Interpolation between neighbouring ranks, without rounding.\<close>

lemma interp_between:
  fixes a b w :: real
  assumes "a \<le> b" "0 \<le> w" "w \<le> 1"
  shows "a \<le> a * (1 - w) + b * w" and "a * (1 - w) + b * w \<le> b"
proof -
  have e: "a * (1 - w) + b * w = a + (b - a) * w"
    by (simp add: algebra_simps)
  have "0 \<le> (b - a) * w"
    using assms by simp
  then show "a \<le> a * (1 - w) + b * w"
    using e by simp
  have "(b - a) * w \<le> (b - a) * 1"
    using assms by (intro mult_left_mono) simp_all
  then show "a * (1 - w) + b * w \<le> b"
    using e by simp
qed

lemma exact_percentile_value:
  assumes "data \<noteq> []" "0 \<le> p" "p \<le> 100"
  defines "s \<equiv> sort data"
  defines "t \<equiv> real (length data - 1) * p / 100"
  defines "k \<equiv> nat \<lfloor>t\<rfloor>"
  shows "k < length data"
    and "calculate_percentile (\<lambda>x. x) data p =
           Inr (if Suc k \<ge> length data then s ! k
                else s ! k * (1 - (t - real k)) + s ! Suc k * (t - real k))"
    and "real k \<le> t" and "t < real k + 1"
proof -
  have m: "mono (\<lambda>x :: real. x)"
    by (simp add: mono_def)
  have ex: "exact_on (\<lambda>x. x) {0, real (length (sort data) - 1), real (length (sort data) - 1) * 100}"
    by (simp add: exact_on_def)
  have idx: "percentile_index (\<lambda>x. x) (sort data) p = t"
    by (simp add: percentile_index_def t_def)
  have b: "0 \<le> t \<and> t \<le> real (length data - 1)"
    using percentile_index_bounds [OF assms(2,3) m ex] idx by simp
  have n_pos: "0 < length data"
    using assms(1) by simp
  have fl_lo: "0 \<le> \<lfloor>t\<rfloor>"
    using b by simp
  have "\<lfloor>t\<rfloor> \<le> int (length data - 1)"
    using b by (simp add: floor_le_iff)
  then have fl_hi: "\<lfloor>t\<rfloor> < int (length data)"
    using n_pos by linarith
  show k_lt: "k < length data"
    unfolding k_def using fl_hi fl_lo by linarith
  have lower: "py_int (percentile_index (\<lambda>x. x) (sort data) p) = int k"
    using b fl_lo by (simp add: py_int_def k_def idx)
  show "calculate_percentile (\<lambda>x. x) data p =
           Inr (if Suc k \<ge> length data then s ! k
                else s ! k * (1 - (t - real k)) + s ! Suc k * (t - real k))"
    using calculate_percentile_in_range [OF lower k_lt] by (simp add: idx s_def)
  have rk: "real k = of_int \<lfloor>t\<rfloor>"
    using fl_lo by (simp add: k_def)
  show "real k \<le> t"
    using rk by simp
  show "t < real k + 1"
    using rk by linarith
qed

text \<open>
  C4, amended. When no operation rounds, the percentile is monotonically non-decreasing
  in its argument on \<open>0 \<le> p1 \<le> p2 \<le> 100\<close>, for every list of samples.
\<close>

theorem percentile_monotone_exact:
  assumes "0 \<le> p1" "p1 \<le> p2" "p2 \<le> 100"
  shows "\<exists>v1 v2. calculate_percentile (\<lambda>x. x) data p1 = Inr v1
              \<and> calculate_percentile (\<lambda>x. x) data p2 = Inr v2 \<and> v1 \<le> v2"
proof (cases "data = []")
  case True
  then show ?thesis
    by (simp add: calculate_percentile_def)
next
  case False
  define s where "s = sort data"
  define n where "n = length data"
  define t1 where "t1 = real (length data - 1) * p1 / 100"
  define t2 where "t2 = real (length data - 1) * p2 / 100"
  define k1 where "k1 = nat \<lfloor>t1\<rfloor>"
  define k2 where "k2 = nat \<lfloor>t2\<rfloor>"
  define g where "g k t = (if Suc k \<ge> length data then s ! k
                else s ! k * (1 - (t - real k)) + s ! Suc k * (t - real k))" for k t
  have p1_hi: "p1 \<le> 100" and p2_lo: "0 \<le> p2"
    using assms by simp_all
  note e1 = exact_percentile_value [OF False assms(1) p1_hi, folded s_def t1_def k1_def]
  note e2 = exact_percentile_value [OF False p2_lo assms(3), folded s_def t2_def k2_def]
  have v1: "calculate_percentile (\<lambda>x. x) data p1 = Inr (g k1 t1)"
    using e1(2) by (simp add: g_def)
  have v2: "calculate_percentile (\<lambda>x. x) data p2 = Inr (g k2 t2)"
    using e2(2) by (simp add: g_def)
  have sorted_s: "sorted s" and len_s: "length s = length data"
    by (simp_all add: s_def)
  have t_le: "t1 \<le> t2"
    using assms(2) by (simp add: t1_def t2_def mult_left_mono divide_right_mono)
  have k_le: "k1 \<le> k2"
    unfolding k1_def k2_def using t_le by (intro nat_mono floor_mono)
  have w1: "0 \<le> t1 - real k1" "t1 - real k1 \<le> 1"
    using e1(3,4) by simp_all
  have w2: "0 \<le> t2 - real k2" "t2 - real k2 \<le> 1"
    using e2(3,4) by simp_all
  have step: "s ! i \<le> s ! j" if "i \<le> j" "j < length data" for i j
    using that sorted_s len_s by (simp add: sorted_nth_mono)
  have "g k1 t1 \<le> g k2 t2"
  proof (cases "k1 = k2")
    case True
    show ?thesis
    proof (cases "Suc k1 \<ge> length data")
      case True
      then show ?thesis using \<open>k1 = k2\<close> by (simp add: g_def)
    next
      case False
      then have lt: "Suc k1 < length data" by simp
      have ab: "s ! k1 \<le> s ! Suc k1"
        using step [of k1 "Suc k1"] lt by simp
      have "g k2 t2 - g k1 t1 = (s ! Suc k1 - s ! k1) * (t2 - t1)"
        using False \<open>k1 = k2\<close> by (simp add: g_def algebra_simps)
      moreover have "0 \<le> (s ! Suc k1 - s ! k1) * (t2 - t1)"
        using ab t_le by simp
      ultimately show ?thesis by linarith
    qed
  next
    case False
    then have lt: "Suc k1 \<le> k2" using k_le by simp
    then have in1: "Suc k1 < length data" using e2(1) by simp
    have ab1: "s ! k1 \<le> s ! Suc k1"
      using step [of k1 "Suc k1"] in1 by simp
    have a: "g k1 t1 \<le> s ! Suc k1"
      using in1 interp_between(2) [OF ab1 w1] by (simp add: g_def)
    have b: "s ! Suc k1 \<le> s ! k2"
      using step [OF lt e2(1)] .
    have c: "s ! k2 \<le> g k2 t2"
    proof (cases "Suc k2 \<ge> length data")
      case True
      then show ?thesis by (simp add: g_def)
    next
      case False
      then have in2: "Suc k2 < length data" by simp
      have ab2: "s ! k2 \<le> s ! Suc k2"
        using step [of k2 "Suc k2"] in2 by simp
      show ?thesis
        using False interp_between(1) [OF ab2 w2] by (simp add: g_def)
    qed
    show ?thesis using a b c by linarith
  qed
  then show ?thesis using v1 v2 by blast
qed

theorem percentile_monotone_exact_witness:
  "calculate_percentile (\<lambda>x. x) [10, 20, 30, 40] 50 = Inr 25
   \<and> calculate_percentile (\<lambda>x. x) [10, 20, 30, 40] 95 = Inr (77 / 2)
   \<and> (25 :: real) \<le> 77 / 2"
proof -
  have h: "(0 :: real) \<le> 50" "(50 :: real) \<le> 95" "(95 :: real) \<le> 100"
    by simp_all
  have a: "calculate_percentile (\<lambda>x. x) [10, 20, 30, 40] 50 = Inr 25"
    by (simp add: calculate_percentile_def percentile_index_def py_int_def py_index_def)
  have b: "calculate_percentile (\<lambda>x. x) [10, 20, 30, 40] 95 = Inr (77 / 2)"
    by (simp add: calculate_percentile_def percentile_index_def py_int_def py_index_def)
  show ?thesis
    using percentile_monotone_exact [OF h, of "[10, 20, 30, 40]"] a b by simp
qed


end
